theory Spec2Isabelle
  imports Complex_Main "HOL-Library.Word"
begin

section \<open>Binary passage retrieval: the model of \<open>BinaryPassageRetriever.retrieve\<close>\<close>

text \<open>
  The theory embeds \<^verbatim>\<open>haystack/nodes/retriever/binary.py\<close> (the method
  \<^verbatim>\<open>retrieve\<close> and its helper \<^verbatim>\<open>embed_one_query\<close>) and
  \<^verbatim>\<open>haystack/modeling/model/hash_layer.py\<close>.

  Conventions of the embedding.
  \<^item> A Python exception is a value \<open>Inl e\<close> of the result type \<open>pyerror + 'a\<close>.
  \<^item> \<^verbatim>\<open>self\<close> is a record that \<open>retrieve\<close> takes and returns: the method assigns to
    \<^verbatim>\<open>self.candidates\<close>.
  \<^item> IEEE floats are idealised as \<open>real\<close>: rounding and NaN are not modelled.
  \<^item> The query batch holds exactly one query (\<open>retrieve\<close> passes a one-element list), so
    the arrays of shape \<open>(1, D)\<close> are plain vectors \<open>real list\<close>.
  \<^item> The encoder, the FAISS index and \<^verbatim>\<open>np.argsort\<close> are collaborators outside the
    repository: they are parameters (function-valued record fields or arguments).
\<close>

subsection \<open>Errors and observable effects\<close>

datatype pyerror =
    TypeError | ValueError | KeyError | IndexError | AttributeError
  | LibraryError string

text \<open>What a call does besides returning: the calls of \<^verbatim>\<open>logger.error\<close> and the
  requests sent to the index (query code and number of candidates asked for).\<close>

datatype event =
    Log_error string
  | Index_search "8 word list" int

subsection \<open>The NumPy operations used by \<open>retrieve\<close>\<close>

text \<open>\<^verbatim>\<open>np.where(x > 0, 1, 0)\<close>\<close>

definition np_where_gt0 :: "real list \<Rightarrow> int list" where
  "np_where_gt0 x = map (\<lambda>v. if v > 0 then 1 else 0) x"

text \<open>One byte of \<^verbatim>\<open>np.packbits\<close> (bit order \<^verbatim>\<open>'big'\<close>, the default): up to eight
  entries, the first one in the most significant bit, missing entries padded with zero
  bits at the end; every non-zero entry counts as a set bit.\<close>

definition pack_byte :: "int list \<Rightarrow> 8 word" where
  "pack_byte bs =
     horner_sum (\<lambda>b. of_bool (b \<noteq> 0)) 2 (rev (take 8 (bs @ replicate 8 0)))"

fun np_packbits :: "int list \<Rightarrow> 8 word list" where
  "np_packbits [] = []"
| "np_packbits (b # bs) = pack_byte (b # take 7 bs) # np_packbits (drop 7 bs)"

text \<open>\<^verbatim>\<open>np.unpackbits\<close> without \<^verbatim>\<open>count\<close>: eight entries (each 0 or 1) per byte, most
  significant bit first.\<close>

definition unpack_byte :: "8 word \<Rightarrow> 8 word list" where
  "unpack_byte w = map (\<lambda>i. of_bool (bit w i)) (rev [0..<8])"

definition np_unpackbits :: "8 word list \<Rightarrow> 8 word list" where
  "np_unpackbits ws = concat (map unpack_byte ws)"

text \<open>The two conversions between the representations of a binary code, as \<open>retrieve\<close>
  writes them: \<open>pack\<close> is line 233 (threshold at 0, then \<^verbatim>\<open>np.packbits\<close>), \<open>unpack\<close> is
  what lines 239, 245 and 247 do to one stored code (\<^verbatim>\<open>np.unpackbits\<close>, conversion to
  float, \<^verbatim>\<open>* 2 - 1\<close>).\<close>

definition pack :: "real list \<Rightarrow> 8 word list" where
  "pack x = np_packbits (np_where_gt0 x)"

definition unpack :: "8 word list \<Rightarrow> real list" where
  "unpack code = map (\<lambda>b. real (unat b) * 2 - 1) (np_unpackbits code)"

text \<open>\<^verbatim>\<open>np.vstack\<close> of a list of one-dimensional arrays: it raises on an empty list and on
  rows of different lengths.\<close>

definition np_vstack :: "'a list list \<Rightarrow> pyerror + 'a list list" where
  "np_vstack rows =
     (case rows of
        [] \<Rightarrow> Inl ValueError
      | r # rs \<Rightarrow>
          if list_all (\<lambda>r'. length r' = length r) rs then Inr rows else Inl ValueError)"

text \<open>\<^verbatim>\<open>a.reshape(1, n, d)\<close> of a two-dimensional array \<open>a\<close>: the entries in row-major
  order are cut again into \<open>n\<close> rows of \<open>d\<close> entries; it raises when the sizes differ.\<close>

definition np_reshape :: "'a list list \<Rightarrow> nat \<Rightarrow> nat \<Rightarrow> pyerror + 'a list list" where
  "np_reshape a n d =
     (if length (concat a) = n * d
      then Inr (map (\<lambda>j. take d (drop (j * d) (concat a))) [0..<n])
      else Inl ValueError)"

text \<open>\<^verbatim>\<open>np.einsum("ijk,ik->ij", p, q)\<close> for \<open>i = 1\<close>: entry \<open>j\<close> is the sum over \<open>k\<close> of
  \<open>p[j][k] * q[k]\<close>.\<close>

definition np_einsum :: "real list list \<Rightarrow> real list \<Rightarrow> real list" where
  "np_einsum p q = map (\<lambda>row. (\<Sum>k\<leftarrow>[0..<length q]. row ! k * q ! k)) p"

text \<open>The slice \<^verbatim>\<open>a[:k]\<close>: a negative \<open>k\<close> counts from the end.\<close>

definition slice_to :: "int \<Rightarrow> 'a list \<Rightarrow> 'a list" where
  "slice_to k xs =
     (if 0 \<le> k then take (nat k) xs else take (nat (int (length xs) + k)) xs)"

text \<open>Indexing a Python list with an integer: a negative index counts from the end,
  anything out of range raises.\<close>

definition getitem :: "'a list \<Rightarrow> int \<Rightarrow> pyerror + 'a" where
  "getitem xs i =
     (if 0 \<le> i \<and> i < int (length xs) then Inr (xs ! nat i)
      else if - int (length xs) \<le> i \<and> i < 0 then Inr (xs ! nat (int (length xs) + i))
      else Inl IndexError)"

text \<open>A list comprehension whose body may raise: the first exception ends it.\<close>

fun comprehension :: "('a \<Rightarrow> pyerror + 'b) \<Rightarrow> 'a list \<Rightarrow> pyerror + 'b list" where
  "comprehension f [] = Inr []"
| "comprehension f (x # xs) =
     (case f x of
        Inl e \<Rightarrow> Inl e
      | Inr y \<Rightarrow> (case comprehension f xs of Inl e \<Rightarrow> Inl e | Inr ys \<Rightarrow> Inr (y # ys)))"

subsection \<open>The collaborators and the retriever\<close>

text \<open>A binary FAISS index, by the two methods \<open>retrieve\<close> calls. \<open>search\<close> returns the
  row of ids found for one query code (FAISS returns one id per requested candidate);
  both may raise.\<close>

record faiss_index =
  search :: "8 word list \<Rightarrow> int \<Rightarrow> pyerror + int list"
  reconstruct :: "int \<Rightarrow> pyerror + 8 word list"

text \<open>The document store, by the attributes \<open>retrieve\<close> reads. A store object is truthy:
  only \<^verbatim>\<open>None\<close> takes the branch \<^verbatim>\<open>if not self.document_store\<close>.\<close>

record 'doc document_store =
  all_documents :: "'doc list"
  index :: string
  faiss_indexes :: "string \<rightharpoonup> faiss_index"

text \<open>The fields of \<^verbatim>\<open>self\<close> that \<open>retrieve\<close> reads or writes. \<open>forward_batches\<close>
  stands for the processor, the data loader and \<^verbatim>\<open>self.model.forward\<close>: for a query it
  gives, batch by batch, the triple
  \<^verbatim>\<open>(binary_query, binary_passage, dense_query)\<close>, or raises.\<close>

record 'doc retriever =
  document_store :: "'doc document_store option"
  top_k :: int
  candidates :: int
  forward_batches :: "string \<Rightarrow> pyerror + (real list \<times> real list option \<times> real list) list"

text \<open>\<^verbatim>\<open>embed_one_query\<close>: the first batch decides; without a batch the method returns
  \<^verbatim>\<open>None\<close>.\<close>

definition embed_one_query ::
  "'doc retriever \<Rightarrow> string \<Rightarrow> pyerror + (real list \<times> real list) option" where
  "embed_one_query self query =
     (case forward_batches self query of
        Inl e \<Rightarrow> Inl e
      | Inr [] \<Rightarrow> Inr None
      | Inr ((binary_query, binary_passage, dense_query) # _) \<Rightarrow>
          Inr (Some (dense_query, binary_query)))"

text \<open>Lines 238 to 249 of \<open>retrieve\<close>: the stored code of every shortlisted id is
  reconstructed and unpacked, the rows are stacked and reshaped to the dimension of the
  dense query, turned from 1/0 into 1/-1, and scored against the dense query.\<close>

definition score_candidates ::
  "faiss_index \<Rightarrow> int list \<Rightarrow> real list \<Rightarrow> pyerror + real list" where
  "score_candidates raw_index ids_arr query_embeddings =
     (case comprehension
             (\<lambda>id'. case reconstruct raw_index id' of
                       Inl e \<Rightarrow> Inl e
                     | Inr code \<Rightarrow> Inr (np_unpackbits code)) ids_arr of
        Inl e \<Rightarrow> Inl e
      | Inr rows \<Rightarrow>
     (case np_vstack rows of
        Inl e \<Rightarrow> Inl e
      | Inr stacked \<Rightarrow>
     (case np_reshape stacked (length stacked) (length query_embeddings) of
        Inl e \<Rightarrow> Inl e
      | Inr reshaped \<Rightarrow>
          (let passage_embeddings = map (map (\<lambda>b. real (unat b) * 2 - 1)) reshaped
           in Inr (np_einsum passage_embeddings query_embeddings)))))"

text \<open>Lines 250 and 251: the positions of the shortlist in the order of
  \<^verbatim>\<open>np.argsort(-scores_arr)\<close>, cut to the first \<open>k\<close>, and the documents found in
  \<^verbatim>\<open>all_documents\<close> under the ids at these positions. \<open>argsort\<close> is \<^verbatim>\<open>np.argsort\<close>.\<close>

definition select_documents ::
  "(real list \<Rightarrow> nat list) \<Rightarrow> 'doc list \<Rightarrow> int list \<Rightarrow> real list \<Rightarrow> int
     \<Rightarrow> pyerror + 'doc list" where
  "select_documents argsort docs ids_arr scores_arr k =
     (let sorted_indices = slice_to k (argsort (map uminus scores_arr))
      in comprehension
           (\<lambda>i. if i < length ids_arr then getitem docs (ids_arr ! i) else Inl IndexError)
           sorted_indices)"

definition no_document_store_message :: string where
  "no_document_store_message =
     ''Cannot perform retrieve() since DensePassageRetriever initialized with document_store=None''"

text \<open>\<open>retrieve\<close>. The result is what the call returns or raises, the retriever after
  the call, and the effects of the call in order. The arguments \<open>filters\<close> and
  \<open>headers\<close> are accepted and never read, as in the source.\<close>

definition retrieve ::
  "(real list \<Rightarrow> nat list) \<Rightarrow> 'doc retriever \<Rightarrow> string \<Rightarrow> 'f \<Rightarrow> int option \<Rightarrow> string option
     \<Rightarrow> 'h \<Rightarrow> (pyerror + 'doc list) \<times> 'doc retriever \<times> event list" where
  "retrieve argsort self query filters top_k_arg index_arg headers =
     (let k = (case top_k_arg of None \<Rightarrow> top_k self | Some k' \<Rightarrow> k') in
      case document_store self of
        None \<Rightarrow> (Inr [], self, [Log_error no_document_store_message])
      | Some store \<Rightarrow>
          (let index_name = (case index_arg of None \<Rightarrow> index store | Some i \<Rightarrow> i) in
           case embed_one_query self query of
             Inl e \<Rightarrow> (Inl e, self, [])
           | Inr None \<Rightarrow> (Inl TypeError, self, [])
           | Inr (Some (query_embeddings, query_emb_binary)) \<Rightarrow>
               (let self' =
                      (if candidates self > int (length (all_documents store))
                       then self\<lparr>candidates := int (length (all_documents store))\<rparr>
                       else self);
                    bin_query_embeddings = np_packbits (np_where_gt0 query_emb_binary)
                in case faiss_indexes store index_name of
                     None \<Rightarrow> (Inl KeyError, self', [])
                   | Some raw_index \<Rightarrow>
                       (case search raw_index bin_query_embeddings (candidates self') of
                          Inl e \<Rightarrow>
                            (Inl e, self', [Index_search bin_query_embeddings (candidates self')])
                        | Inr ids_arr \<Rightarrow>
                            (case score_candidates raw_index ids_arr query_embeddings of
                               Inl e \<Rightarrow>
                                 (Inl e, self',
                                  [Index_search bin_query_embeddings (candidates self')])
                             | Inr scores_arr \<Rightarrow>
                                 (select_documents argsort (all_documents store) ids_arr
                                    scores_arr k,
                                  self',
                                  [Index_search bin_query_embeddings (candidates self')]))))))"

text \<open>A series of later calls on the same retriever. Between two calls the document
  store (an object shared with the rest of the application) may have changed: every
  call comes with the store as it is at that moment. The result lists what each call
  returned and did.\<close>

fun retrieve_calls ::
  "(real list \<Rightarrow> nat list) \<Rightarrow> 'doc retriever
     \<Rightarrow> ('doc document_store \<times> string \<times> int option \<times> string option) list
     \<Rightarrow> ((pyerror + 'doc list) \<times> event list) list \<times> 'doc retriever" where
  "retrieve_calls argsort self [] = ([], self)"
| "retrieve_calls argsort self ((store, query, top_k_arg, index_arg) # calls) =
     (case retrieve argsort (self\<lparr>document_store := Some store\<rparr>) query () top_k_arg
             index_arg () of
        (res, self', evs) \<Rightarrow>
          (case retrieve_calls argsort self' calls of
             (rest, self'') \<Rightarrow> ((res, evs) # rest, self'')))"

text \<open>Lines 230 and 231 on their own: the retriever after the assignment to
  \<^verbatim>\<open>self.candidates\<close>. The lemmas below describe \<open>retrieve\<close> with it.\<close>

definition clamped :: "'doc retriever \<Rightarrow> 'doc document_store \<Rightarrow> 'doc retriever" where
  "clamped self store =
     (if candidates self > int (length (all_documents store))
      then self\<lparr>candidates := int (length (all_documents store))\<rparr>
      else self)"

subsection \<open>\<^verbatim>\<open>np.argsort\<close>\<close>

text \<open>What NumPy promises of \<^verbatim>\<open>np.argsort(a)\<close> whatever the kind of sort: the result
  lists every position of \<open>a\<close> once, and \<open>a\<close> read in that order is ascending. Line 250
  calls it without \<^verbatim>\<open>kind\<close>, that is with the default \<^verbatim>\<open>'quicksort'\<close>, which NumPy
  documents as not stable: the order of positions with equal entries is left to the
  library.\<close>

definition argsort_spec :: "real list \<Rightarrow> nat list \<Rightarrow> bool" where
  "argsort_spec a order \<longleftrightarrow>
     distinct order \<and> set order = set [0..<length a] \<and> sorted (map (\<lambda>i. a ! i) order)"

text \<open>The sort NumPy runs for the default kind on a float array without SIMD dispatch
  (\<^verbatim>\<open>aquicksort\<close> in \<^verbatim>\<open>numpy/core/src/npysort/quicksort\<close>), a library routine outside the
  repository, modelled here to have a tie order that NumPy really produces. Floats are
  compared as reals.\<close>

text \<open>A range \<open>pl..pr\<close> with \<open>pr - pl\<close> of at most this is sorted by insertion.\<close>

definition SMALL_QUICKSORT :: nat where "SMALL_QUICKSORT = 16"

text \<open>The index array \<open>t\<close> (\<^verbatim>\<open>tosort\<close>) is permuted; the keys \<open>v\<close> stay where they are.
  Pointers into \<open>t\<close> are positions: \<open>pl\<close>, \<open>pr\<close>, \<open>pm\<close>, and \<open>p_i\<close>, \<open>p_j\<close>, \<open>p_k\<close> for
  \<^verbatim>\<open>pi\<close>, \<^verbatim>\<open>pj\<close>, \<^verbatim>\<open>pk\<close>.\<close>

definition INTP_SWAP :: "nat list \<Rightarrow> nat \<Rightarrow> nat \<Rightarrow> nat list" where
  "INTP_SWAP t a b = t[a := t ! b, b := t ! a]"

text \<open>The position of the highest set bit: the depth limit is twice this number.\<close>

fun npy_get_msb :: "nat \<Rightarrow> nat" where
  "npy_get_msb n = (if n div 2 = 0 then 0 else Suc (npy_get_msb (n div 2)))"

text \<open>The two scans of the partition step, \<^verbatim>\<open>do ++pi; while (v[*pi] < vp)\<close> and
  \<^verbatim>\<open>do --pj; while (vp < v[*pj])\<close>, each started after its first step. The median of
  three leaves a sentinel at either end, so the scans stay inside the range; the model
  stops them at the ends of the array all the same.\<close>

function scan_up :: "real list \<Rightarrow> nat list \<Rightarrow> real \<Rightarrow> nat \<Rightarrow> nat" where
  "scan_up v t vp p_i =
     (if p_i < length t \<and> v ! (t ! p_i) < vp then scan_up v t vp (Suc p_i) else p_i)"
  by pat_completeness auto
termination by (relation "measure (\<lambda>(v, t, vp, p_i). length t - p_i)") auto

primrec scan_down :: "real list \<Rightarrow> nat list \<Rightarrow> real \<Rightarrow> nat \<Rightarrow> nat" where
  "scan_down v t vp 0 = 0"
| "scan_down v t vp (Suc p_j) =
     (if vp < v ! (t ! Suc p_j) then scan_down v t vp p_j else Suc p_j)"

text \<open>The exchange loop of the partition step; it ends when the scans meet. The first
  argument bounds the number of rounds (a round moves both positions).\<close>

primrec partition_loop ::
  "nat \<Rightarrow> real list \<Rightarrow> real \<Rightarrow> nat list \<Rightarrow> nat \<Rightarrow> nat \<Rightarrow> nat list \<times> nat" where
  "partition_loop 0 v vp t p_i p_j = (t, p_i)"
| "partition_loop (Suc fuel) v vp t p_i p_j =
     (let p_i' = scan_up v t vp (Suc p_i); p_j' = scan_down v t vp (p_j - 1)
      in if p_i' \<ge> p_j' then (t, p_i')
         else partition_loop fuel v vp (INTP_SWAP t p_i' p_j') p_i' p_j')"

text \<open>One partition step on the range \<open>pl..pr\<close>: median of three, the pivot parked at
  \<open>pr - 1\<close>, the exchange loop, the pivot put in its place \<open>p_i\<close>.\<close>

definition partition :: "real list \<Rightarrow> nat list \<Rightarrow> nat \<Rightarrow> nat \<Rightarrow> nat list \<times> nat" where
  "partition v t pl pr =
     (let pm = pl + (pr - pl) div 2;
          t1 = (if v ! (t ! pm) < v ! (t ! pl) then INTP_SWAP t pm pl else t);
          t2 = (if v ! (t1 ! pr) < v ! (t1 ! pm) then INTP_SWAP t1 pr pm else t1);
          t3 = (if v ! (t2 ! pm) < v ! (t2 ! pl) then INTP_SWAP t2 pm pl else t2);
          vp = v ! (t3 ! pm);
          p_j = pr - 1;
          t4 = INTP_SWAP t3 pm p_j
      in case partition_loop (pr - pl) v vp t4 pl p_j of
           (t5, p_i) \<Rightarrow> (INTP_SWAP t5 p_i (pr - 1), p_i))"

text \<open>Insertion sort of the range \<open>pl..pr\<close>: an entry moves down only past entries
  with a strictly greater key.\<close>

primrec insert_down ::
  "real list \<Rightarrow> nat list \<Rightarrow> nat \<Rightarrow> real \<Rightarrow> nat \<Rightarrow> nat list \<times> nat" where
  "insert_down v t pl vp 0 = (t, 0)"
| "insert_down v t pl vp (Suc p_k) =
     (if Suc p_k > pl \<and> vp < v ! (t ! p_k)
      then insert_down v (t[Suc p_k := t ! p_k]) pl vp p_k
      else (t, Suc p_k))"

definition insertion_sort :: "real list \<Rightarrow> nat list \<Rightarrow> nat \<Rightarrow> nat \<Rightarrow> nat list" where
  "insertion_sort v t pl pr =
     fold (\<lambda>p_i t. let vi = t ! p_i; vp = v ! vi
                  in case insert_down v t pl vp p_i of (t', p_j) \<Rightarrow> t'[p_j := vi])
          [Suc pl..<Suc pr] t"

text \<open>Heap sort of the \<open>n\<close> entries from position \<open>off\<close> on (the array \<^verbatim>\<open>a\<close> of the C
  code counts from 1: \<^verbatim>\<open>a[i]\<close> is position \<open>off + i - 1\<close>). It is the fallback when the
  depth limit is used up.\<close>

primrec sift_down ::
  "nat \<Rightarrow> real list \<Rightarrow> nat list \<Rightarrow> nat \<Rightarrow> nat \<Rightarrow> nat \<Rightarrow> nat \<Rightarrow> nat \<Rightarrow> nat list \<times> nat" where
  "sift_down 0 v t off n tmp i j = (t, i)"
| "sift_down (Suc fuel) v t off n tmp i j =
     (if j \<le> n then
        (let j' = (if j < n \<and> v ! (t ! (off + j - 1)) < v ! (t ! (off + j)) then j + 1 else j)
         in if v ! tmp < v ! (t ! (off + j' - 1))
            then sift_down fuel v (t[off + i - 1 := t ! (off + j' - 1)]) off n tmp j' (j' + j')
            else (t, i))
      else (t, i))"

definition aheapsort :: "real list \<Rightarrow> nat list \<Rightarrow> nat \<Rightarrow> nat \<Rightarrow> nat list" where
  "aheapsort v t off n =
     (let t1 = fold (\<lambda>l t. let tmp = t ! (off + l - 1)
                           in case sift_down n v t off n tmp l (l + l) of
                                (t', i) \<Rightarrow> t'[off + i - 1 := tmp])
                    (rev [1..<Suc (n div 2)]) t
      in fold (\<lambda>m t. let tmp = t ! (off + m - 1);
                         t' = t[off + m - 1 := t ! off]
                     in case sift_down m v t' off (m - 1) tmp 1 2 of
                          (t'', i) \<Rightarrow> t''[off + i - 1 := tmp])
              (rev [2..<Suc n]) t1)"

text \<open>The inner loop: it partitions while \<open>pr - pl\<close> exceeds 16, pushes
  the larger part (with the depth left) on the stack and goes on with the smaller.\<close>

primrec partition_while ::
  "nat \<Rightarrow> real list \<Rightarrow> nat list \<Rightarrow> nat \<Rightarrow> nat \<Rightarrow> int \<Rightarrow> (nat \<times> nat \<times> int) list
     \<Rightarrow> nat list \<times> nat \<times> nat \<times> int \<times> (nat \<times> nat \<times> int) list" where
  "partition_while 0 v t pl pr cdepth stack = (t, pl, pr, cdepth, stack)"
| "partition_while (Suc fuel) v t pl pr cdepth stack =
     (if pr - pl > SMALL_QUICKSORT then
        (case partition v t pl pr of
           (t', p_i) \<Rightarrow>
             if p_i - pl < pr - p_i
             then partition_while fuel v t' pl (p_i - 1) (cdepth - 1)
                    ((p_i + 1, pr, cdepth - 1) # stack)
             else partition_while fuel v t' (p_i + 1) pr (cdepth - 1)
                    ((pl, p_i - 1, cdepth - 1) # stack))
      else (t, pl, pr, cdepth, stack))"

text \<open>The outer loop: heap sort when the depth limit is used up, else the inner loop
  and an insertion sort of what it leaves; then the next range from the stack. The
  result is \<open>None\<close> when the bound on the number of rounds is used up before the stack
  is empty.\<close>

primrec aquicksort_loop ::
  "nat \<Rightarrow> real list \<Rightarrow> nat list \<Rightarrow> nat \<Rightarrow> nat \<Rightarrow> int \<Rightarrow> (nat \<times> nat \<times> int) list
     \<Rightarrow> nat list option" where
  "aquicksort_loop 0 v t pl pr cdepth stack = None"
| "aquicksort_loop (Suc fuel) v t pl pr cdepth stack =
     (case (if cdepth < 0 then (aheapsort v t pl (pr - pl + 1), stack)
            else (case partition_while (pr - pl) v t pl pr cdepth stack of
                    (t', pl', pr', cdepth', stack') \<Rightarrow> (insertion_sort v t' pl' pr', stack'))) of
        (t', []) \<Rightarrow> Some t'
      | (t', (pl', pr', cdepth') # stack') \<Rightarrow> aquicksort_loop fuel v t' pl' pr' cdepth' stack')"

text \<open>The sort of the positions of \<open>v\<close>: the whole range, with the depth limit
  \<^verbatim>\<open>npy_get_msb(num) * 2\<close>.\<close>

definition aquicksort :: "real list \<Rightarrow> nat list option" where
  "aquicksort v =
     (if v = [] then Some []
      else aquicksort_loop (length v) v [0..<length v] 0 (length v - 1)
             (2 * int (npy_get_msb (length v))) [])"

text \<open>\<^verbatim>\<open>np.argsort(a)\<close> with the default kind.\<close>

definition np_argsort :: "real list \<Rightarrow> nat list" where
  "np_argsort a = (case aquicksort a of Some order \<Rightarrow> order | None \<Rightarrow> [])"

subsection \<open>The specification's words for the re-ranking score\<close>

text \<open>The unpacked code as the specification describes it: bit \<open>i\<close> of the code sits in
  byte \<open>i div 8\<close>, most significant bit first; a set bit is +1.0 and a clear bit -1.0.\<close>

definition unpacked_pm1 :: "8 word list \<Rightarrow> real list" where
  "unpacked_pm1 code =
     map (\<lambda>i. if bit (code ! (i div 8)) (7 - i mod 8) then 1 else -1) [0..<8 * length code]"

text \<open>The dot product of two vectors.\<close>

definition dot_product :: "real list \<Rightarrow> real list \<Rightarrow> real" where
  "dot_product x y = sum_list (map2 (*) x y)"

subsection \<open>A small installation, for concrete runs\<close>

text \<open>\<^verbatim>\<open>np.argsort(a, kind='stable')\<close>: the positions of \<open>a\<close> sorted by their entries,
  equal entries in ascending order of position.\<close>

definition stable_argsort :: "real list \<Rightarrow> nat list" where
  "stable_argsort a = sort_key (\<lambda>i. a ! i) [0..<length a]"

text \<open>Three documents with the one-byte codes \<open>0xF0\<close>, \<open>0xFF\<close> and \<open>0x00\<close>; the index
  ranks them for the query code \<open>0xFE\<close> (Hamming distances 2, 1 and 7).\<close>

definition example_index :: faiss_index where
  "example_index =
     \<lparr>search = (\<lambda>q k. if k < 0 then Inl (LibraryError ''k'') else Inr (take (nat k) [1, 0, 2])),
      reconstruct = (\<lambda>i. if i = 0 then Inr [0xF0] else if i = 1 then Inr [0xFF]
                          else if i = 2 then Inr [0x00] else Inl (LibraryError ''id''))\<rparr>"

definition example_store :: "string document_store" where
  "example_store =
     \<lparr>all_documents = [''doc0'', ''doc1'', ''doc2''], index = ''document'',
      faiss_indexes = [''document'' \<mapsto> example_index]\<rparr>"

definition example_dense_query :: "real list" where
  "example_dense_query = [2, 2, 2, 2, -1, -1, -1, -1]"

definition example_binary_query :: "real list" where
  "example_binary_query = [1, 1, 1, 1, 1, 1, 1, -1]"

definition example_retriever :: "string retriever" where
  "example_retriever =
     \<lparr>document_store = Some example_store, top_k = 10, candidates = 1000,
      forward_batches = (\<lambda>q. Inr [(example_binary_query, None, example_dense_query)])\<rparr>"

text \<open>The same store after a fourth document was added.\<close>

definition grown_store :: "string document_store" where
  "grown_store =
     \<lparr>all_documents = [''doc0'', ''doc1'', ''doc2'', ''doc3''], index = ''document'',
      faiss_indexes = [''document'' \<mapsto>
        \<lparr>search = (\<lambda>q k. if k < 0 then Inl (LibraryError ''k'')
                           else Inr (take (nat k) [1, 0, 3, 2])),
         reconstruct = (\<lambda>i. if i = 0 then Inr [0xF0] else if i = 1 then Inr [0xFF]
                          else if i = 2 then Inr [0x00] else if i = 3 then Inr [0xFC]
                          else Inl (LibraryError ''id''))\<rparr>]\<rparr>"

text \<open>A store without documents. Its index has no entries: a search pads the ids it
  cannot find with -1 (for 0 requested candidates the row is empty) and no id can be
  reconstructed.\<close>

definition empty_store :: "string document_store" where
  "empty_store =
     \<lparr>all_documents = [], index = ''document'',
      faiss_indexes = [''document'' \<mapsto>
        \<lparr>search = (\<lambda>q k. if k < 0 then Inl (LibraryError ''k'')
                           else Inr (replicate (nat k) (-1))),
         reconstruct = (\<lambda>i. Inl (LibraryError ''id''))\<rparr>]\<rparr>"

text \<open>Eighteen documents that all carry the code \<open>0xFF\<close>: every score is the same.
  A document is its number; the index lists the ids in ascending order.\<close>

definition tied_store :: "nat document_store" where
  "tied_store =
     \<lparr>all_documents = [0..<18], index = ''document'',
      faiss_indexes = [''document'' \<mapsto>
        \<lparr>search = (\<lambda>q k. if k < 0 then Inl (LibraryError ''k'')
                           else Inr (take (nat k) (map int [0..<18]))),
         reconstruct = (\<lambda>i. if 0 \<le> i \<and> i < 18 then Inr [0xFF]
                             else Inl (LibraryError ''id''))\<rparr>]\<rparr>"

definition tied_retriever :: "nat retriever" where
  "tied_retriever =
     \<lparr>document_store = Some tied_store, top_k = 10, candidates = 1000,
      forward_batches = (\<lambda>q. Inr [(example_binary_query, None, example_dense_query)])\<rparr>"

section \<open>The hash layer: the model of \<open>HashLayer.__init_subclass__\<close>\<close>

text \<open>
  \<^verbatim>\<open>hash_layer.py\<close> defines the class \<^verbatim>\<open>HashLayer(nn.Module)\<close> with one method,
  \<^verbatim>\<open>__init_subclass__\<close>, which Python calls when a subclass is defined. A class is
  modelled by its name and its namespace (the attributes its own body supplies); a
  registry of classes is a dictionary from class names to classes, a class being
  identified by its name.
\<close>

datatype pyvalue = Function | Dict "string \<rightharpoonup> string" | Other

type_synonym namespace = "string \<rightharpoonup> pyvalue"

text \<open>The body of \<^verbatim>\<open>HashLayer\<close> supplies \<^verbatim>\<open>__init_subclass__\<close> and nothing else (the
  method \<^verbatim>\<open>forward\<close> is commented out).\<close>

definition HashLayer_namespace :: namespace where
  "HashLayer_namespace = [''__init_subclass__'' \<mapsto> Function]"

record pyclass =
  cls_name :: string
  cls_namespace :: namespace

text \<open>Attribute lookup on a class whose only base is \<^verbatim>\<open>HashLayer\<close>: its own namespace,
  then \<^verbatim>\<open>HashLayer\<close>, then what \<^verbatim>\<open>HashLayer\<close> inherits (\<^verbatim>\<open>nn.Module\<close> and \<^verbatim>\<open>object\<close>,
  outside the repository: the parameter \<open>base\<close>).\<close>

definition getattr_cls :: "namespace \<Rightarrow> pyclass \<Rightarrow> string \<Rightarrow> pyvalue option" where
  "getattr_cls base cls attr =
     (case cls_namespace cls attr of
        Some v \<Rightarrow> Some v
      | None \<Rightarrow> (case HashLayer_namespace attr of Some v \<Rightarrow> Some v | None \<Rightarrow> base attr))"

text \<open>\<^verbatim>\<open>__init_subclass__(cls, **kwargs)\<close>, run at the definition of \<open>cls\<close>.
  \<^verbatim>\<open>super().__init_subclass__(**kwargs)\<close> reaches \<^verbatim>\<open>object.__init_subclass__\<close>, which
  raises \<^verbatim>\<open>TypeError\<close> on any keyword argument. Then \<^verbatim>\<open>cls.subclasses\<close> is looked up
  (\<^verbatim>\<open>AttributeError\<close> when no class supplies it) and the entry for the class name is
  stored in the mapping found; the result is that mapping after the assignment.\<close>

definition init_subclass ::
  "namespace \<Rightarrow> pyclass \<Rightarrow> (string \<times> 'v) list \<Rightarrow> pyerror + (string \<rightharpoonup> string)" where
  "init_subclass base cls kwargs =
     (if kwargs \<noteq> [] then Inl TypeError
      else case getattr_cls base cls ''subclasses'' of
             None \<Rightarrow> Inl AttributeError
           | Some (Dict subclasses) \<Rightarrow> Inr (subclasses(cls_name cls \<mapsto> cls_name cls))
           | Some _ \<Rightarrow> Inl TypeError)"

section \<open>Packed and unpacked codes\<close>

lemma pack_byte_horner:
  "pack_byte bs = horner_sum of_bool 2 (map (\<lambda>b. b \<noteq> 0) (rev (take 8 (bs @ replicate 8 0))))"
  unfolding pack_byte_def by (simp add: horner_sum_foldr foldr_map comp_def)

lemma bit_pack_byte:
  assumes "j < 8"
  shows "bit (pack_byte bs) (7 - j) \<longleftrightarrow> j < length bs \<and> bs ! j \<noteq> 0"
proof -
  define L where "L = take 8 (bs @ replicate 8 0)"
  have len: "length L = 8" by (simp add: L_def)
  have "bit (pack_byte bs) (7 - j) \<longleftrightarrow> map (\<lambda>b. b \<noteq> 0) (rev L) ! (7 - j)"
    using assms len unfolding pack_byte_horner L_def [symmetric]
    by (auto simp add: bit_horner_sum_bit_word_iff)
  also have "\<dots> \<longleftrightarrow> L ! j \<noteq> 0"
  proof -
    have "7 - j < length L" "length L - Suc (7 - j) = j"
      using assms len by arith+
    then show ?thesis by (simp add: rev_nth)
  qed
  also have "L ! j = (bs @ replicate 8 0) ! j"
    using assms unfolding L_def by (rule nth_take)
  also have "(bs @ replicate 8 0) ! j \<noteq> 0 \<longleftrightarrow> j < length bs \<and> bs ! j \<noteq> 0"
    using assms by (simp add: nth_append)
  finally show ?thesis .
qed

lemma length_np_packbits: "length (np_packbits bs) = (length bs + 7) div 8"
  by (induction bs rule: np_packbits.induct) auto

lemma bit_np_packbits:
  "i < 8 * length (np_packbits bs) \<Longrightarrow>
     bit (np_packbits bs ! (i div 8)) (7 - i mod 8) \<longleftrightarrow> i < length bs \<and> bs ! i \<noteq> 0"
proof (induction bs arbitrary: i rule: np_packbits.induct)
  case 1
  then show ?case by simp
next
  case (2 b bs)
  show ?case
  proof (cases "i < 8")
    case True
    then have "bit (np_packbits (b # bs) ! (i div 8)) (7 - i mod 8)
        \<longleftrightarrow> bit (pack_byte (b # take 7 bs)) (7 - i)"
      by simp
    also have "\<dots> \<longleftrightarrow> i < length (b # take 7 bs) \<and> (b # take 7 bs) ! i \<noteq> 0"
      using True by (rule bit_pack_byte)
    also have "\<dots> \<longleftrightarrow> i < length (b # bs) \<and> (b # bs) ! i \<noteq> 0"
      using True by (cases i) auto
    finally show ?thesis .
  next
    case False
    then obtain i' where i: "i = i' + 8" by (metis add.commute le_Suc_ex not_less)
    from "2.prems" i have "i' < 8 * length (np_packbits (drop 7 bs))" by simp
    from "2.IH" [OF this] i show ?thesis
      by (auto simp: nth_Cons')
  qed
qed

lemma length_unpack_byte [simp]: "length (unpack_byte w) = 8"
  by (simp add: unpack_byte_def)

lemma nth_unpack_byte: "j < 8 \<Longrightarrow> unpack_byte w ! j = of_bool (bit w (7 - j))"
proof -
  assume j: "j < 8"
  have "rev [0..<8] ! j = 7 - j"
    using j by (simp add: rev_nth del: upt_rec_numeral rev.simps upt.simps) 
  with j show ?thesis by (simp add: unpack_byte_def del: upt_rec_numeral rev.simps upt.simps)
qed

lemma length_np_unpackbits [simp]: "length (np_unpackbits ws) = 8 * length ws"
  by (induction ws) (simp_all add: np_unpackbits_def)

lemma nth_np_unpackbits:
  "i < 8 * length ws \<Longrightarrow>
     np_unpackbits ws ! i = of_bool (bit (ws ! (i div 8)) (7 - i mod 8))"
proof (induction ws arbitrary: i)
  case Nil
  then show ?case by simp
next
  case (Cons w ws)
  have unfold: "np_unpackbits (w # ws) = unpack_byte w @ np_unpackbits ws"
    by (simp add: np_unpackbits_def)
  show ?case
  proof (cases "i < 8")
    case True
    then show ?thesis by (simp add: unfold nth_append nth_unpack_byte)
  next
    case False
    then obtain i' where i: "i = i' + 8" by (metis add.commute le_Suc_ex not_less)
    with Cons.prems have "i' < 8 * length ws" by simp
    from Cons.IH [OF this] i show ?thesis
      by (simp add: unfold nth_append)
  qed
qed

lemma pm1_of_bool: "real (unat (of_bool b :: 8 word)) * 2 - 1 = (if b then 1 else -1)"
  by simp

lemma length_unpack: "length (unpack code) = 8 * length code"
  by (simp add: unpack_def)

lemma nth_unpack:
  "i < 8 * length code \<Longrightarrow>
     unpack code ! i = (if bit (code ! (i div 8)) (7 - i mod 8) then 1 else -1)"
  by (simp add: unpack_def nth_np_unpackbits)

lemma length_pack: "length (pack x) = (length x + 7) div 8"
  by (simp add: pack_def length_np_packbits np_where_gt0_def)

lemma bit_pack:
  "i < 8 * length (pack x) \<Longrightarrow>
     bit (pack x ! (i div 8)) (7 - i mod 8) \<longleftrightarrow> i < length x \<and> x ! i > 0"
  unfolding pack_def
proof -
  assume "i < 8 * length (np_packbits (np_where_gt0 x))"
  from bit_np_packbits [OF this]
  have "bit (np_packbits (np_where_gt0 x) ! (i div 8)) (7 - i mod 8)
      \<longleftrightarrow> i < length (np_where_gt0 x) \<and> np_where_gt0 x ! i \<noteq> 0" .
  also have "\<dots> \<longleftrightarrow> i < length x \<and> x ! i > 0"
    by (cases "i < length x") (simp_all add: np_where_gt0_def)
  finally show "bit (np_packbits (np_where_gt0 x) ! (i div 8)) (7 - i mod 8)
      \<longleftrightarrow> i < length x \<and> x ! i > 0" .
qed

lemma pack_unpack: "pack (unpack code) = code"
proof (rule nth_equalityI)
  show len: "length (pack (unpack code)) = length code"
    by (simp add: length_pack length_unpack)
  fix m assume "m < length (pack (unpack code))"
  with len have m: "m < length code" by simp
  show "pack (unpack code) ! m = code ! m"
  proof (rule bit_word_eqI)
    fix n assume "n < LENGTH(8)"
    then have n: "n < 8" by simp
    define i where "i = 8 * m + (7 - n)"
    have i: "i div 8 = m" "7 - i mod 8 = n" "i < 8 * length code"
    proof -
      have "7 - n < 8" by arith
      then show "i div 8 = m" unfolding i_def by simp
      have "i mod 8 = 7 - n" unfolding i_def using \<open>7 - n < 8\<close> by simp
      with n show "7 - i mod 8 = n" by arith
      from m n show "i < 8 * length code" unfolding i_def by arith
    qed
    have "bit (pack (unpack code) ! (i div 8)) (7 - i mod 8)
        \<longleftrightarrow> i < length (unpack code) \<and> unpack code ! i > 0"
      using i len by (intro bit_pack) simp
    also have "\<dots> \<longleftrightarrow> bit (code ! (i div 8)) (7 - i mod 8)"
      using i by (simp add: length_unpack nth_unpack)
    finally show "bit (pack (unpack code) ! m) n \<longleftrightarrow> bit (code ! m) n"
      by (simp add: i)
  qed
qed

lemma unpack_pack:
  assumes "list_all (\<lambda>v. v = 1 \<or> v = -1) x"
  shows "unpack (pack x) = x @ replicate (8 * ((length x + 7) div 8) - length x) (-1)"
proof (rule nth_equalityI)
  show len: "length (unpack (pack x))
      = length (x @ replicate (8 * ((length x + 7) div 8) - length x) (-1))"
    by (simp add: length_unpack length_pack)
  fix i assume "i < length (unpack (pack x))"
  then have i: "i < 8 * length (pack x)" by (simp add: length_unpack)
  have "unpack (pack x) ! i = (if i < length x \<and> x ! i > 0 then 1 else -1)"
    using i by (simp add: nth_unpack bit_pack)
  also have "\<dots> = (x @ replicate (8 * ((length x + 7) div 8) - length x) (-1)) ! i"
  proof (cases "i < length x")
    case True
    with assms have "x ! i = 1 \<or> x ! i = -1" by (simp add: list_all_length)
    with True show ?thesis by (auto simp: nth_append)
  next
    case False
    with i show ?thesis by (simp add: nth_append length_pack)
  qed
  finally show "unpack (pack x) ! i
      = (x @ replicate (8 * ((length x + 7) div 8) - length x) (-1)) ! i" .
qed

section \<open>The scores of the shortlist\<close>

lemma unpack_eq_unpacked_pm1: "unpack code = unpacked_pm1 code"
  by (rule nth_equalityI) (simp_all add: length_unpack nth_unpack unpacked_pm1_def)

lemma comprehension_Inr:
  "comprehension f xs = Inr ys \<Longrightarrow>
     length ys = length xs \<and> (\<forall>j < length xs. f (xs ! j) = Inr (ys ! j))"
proof (induction xs arbitrary: ys)
  case Nil
  then show ?case by simp
next
  case (Cons x xs)
  from Cons.prems obtain y ys' where y: "f x = Inr y" and ys': "comprehension f xs = Inr ys'"
    and ys: "ys = y # ys'"
    by (auto split: sum.splits)
  from Cons.IH [OF ys'] y ys show ?case
    by (auto simp: nth_Cons')
qed

lemma np_vstack_Inr:
  "np_vstack rows = Inr stacked \<Longrightarrow>
     stacked = rows \<and> rows \<noteq> [] \<and> list_all (\<lambda>r. length r = length (hd rows)) rows"
  by (auto simp: np_vstack_def split: list.splits if_splits)

lemma length_concat_uniform:
  "list_all (\<lambda>r. length r = d) rows \<Longrightarrow> length (concat rows) = length rows * d"
  by (induction rows) simp_all

lemma take_drop_concat_uniform:
  "list_all (\<lambda>r. length r = d) rows \<Longrightarrow> j < length rows \<Longrightarrow>
     take d (drop (j * d) (concat rows)) = rows ! j"
proof (induction rows arbitrary: j)
  case Nil
  then show ?case by simp
next
  case (Cons r rows)
  then show ?case by (cases j) simp_all
qed

lemma np_reshape_Inr:
  assumes "np_reshape rows (length rows) d = Inr reshaped"
      and "list_all (\<lambda>r. length r = l) rows" and "rows \<noteq> []"
  shows "l = d \<and> reshaped = rows"
proof -
  from assms(1) have len: "length (concat rows) = length rows * d"
    and r: "reshaped = map (\<lambda>j. take d (drop (j * d) (concat rows))) [0..<length rows]"
    by (auto simp: np_reshape_def split: if_splits)
  from len length_concat_uniform [OF assms(2)] assms(3) have d: "l = d" by simp
  have "reshaped = rows"
    unfolding r using assms(2) d
    by (intro nth_equalityI) (simp_all add: take_drop_concat_uniform)
  with d show ?thesis by simp
qed

lemma dot_product_nth:
  "length x = length y \<Longrightarrow> dot_product x y = (\<Sum>k\<leftarrow>[0..<length y]. x ! k * y ! k)"
proof -
  assume l: "length x = length y"
  have "map2 (*) x y = map (\<lambda>k. x ! k * y ! k) [0..<length y]"
    using l by (intro nth_equalityI) simp_all
  then show ?thesis by (simp add: dot_product_def)
qed

lemma score_candidates_Inr:
  assumes "score_candidates raw_index ids_arr q = Inr scores"
  shows "length scores = length ids_arr
       \<and> (\<forall>j < length ids_arr. \<exists>code.
             reconstruct raw_index (ids_arr ! j) = Inr code
           \<and> 8 * length code = length q
           \<and> scores ! j = dot_product (unpacked_pm1 code) q)"
proof -
  let ?f = "\<lambda>id'. case reconstruct raw_index id' of
                       Inl e \<Rightarrow> Inl e
                     | Inr code \<Rightarrow> Inr (np_unpackbits code)"
  from assms obtain rows stacked reshaped where
      rows: "comprehension ?f ids_arr = Inr rows"
    and stacked: "np_vstack rows = Inr stacked"
    and reshaped: "np_reshape stacked (length stacked) (length q) = Inr reshaped"
    and scores: "scores = np_einsum (map (map (\<lambda>b. real (unat b) * 2 - 1)) reshaped) q"
    by (auto simp: score_candidates_def Let_def split: sum.splits)
  from np_vstack_Inr [OF stacked] have st: "stacked = rows" and ne: "rows \<noteq> []"
    and uni: "list_all (\<lambda>r. length r = length (hd rows)) rows"
    by simp_all
  from np_reshape_Inr [OF reshaped [unfolded st] uni ne]
  have d: "length (hd rows) = length q" and re: "reshaped = rows" by simp_all
  from comprehension_Inr [OF rows] have len: "length rows = length ids_arr"
    and each: "\<And>j. j < length ids_arr \<Longrightarrow> ?f (ids_arr ! j) = Inr (rows ! j)"
    by simp_all
  have "\<exists>code. reconstruct raw_index (ids_arr ! j) = Inr code
           \<and> 8 * length code = length q
           \<and> scores ! j = dot_product (unpacked_pm1 code) q" if j: "j < length ids_arr" for j
  proof -
    from each [OF j] obtain code where code: "reconstruct raw_index (ids_arr ! j) = Inr code"
      and row: "rows ! j = np_unpackbits code"
      by (auto split: sum.splits)
    from uni j len d have "length (rows ! j) = length q"
      by (simp add: list_all_length)
    with row have l: "8 * length code = length q" by simp
    have "scores ! j = (\<Sum>k\<leftarrow>[0..<length q]. unpack code ! k * q ! k)"
      using j len unfolding scores re np_einsum_def unpack_def
      by (simp add: row)
    also have "\<dots> = dot_product (unpacked_pm1 code) q"
      using l by (simp add: dot_product_nth unpack_eq_unpacked_pm1 [symmetric] length_unpack)
    finally show ?thesis using code l by blast
  qed
  moreover have "length scores = length ids_arr"
    by (simp add: scores np_einsum_def re len)
  ultimately show ?thesis by blast
qed

section \<open>The order of the returned documents\<close>

lemma select_documents_Inr:
  assumes "select_documents argsort docs ids_arr scores k = Inr documents"
  shows "list_all2 (\<lambda>d i. i < length ids_arr \<and> getitem docs (ids_arr ! i) = Inr d) documents
           (slice_to k (argsort (map uminus scores)))"
proof -
  let ?f = "\<lambda>i. if i < length ids_arr then getitem docs (ids_arr ! i) else Inl IndexError"
  from assms have "comprehension ?f (slice_to k (argsort (map uminus scores))) = Inr documents"
    by (simp add: select_documents_def Let_def)
  from comprehension_Inr [OF this] show ?thesis
    by (auto simp: list_all2_conv_all_nth split: if_splits)
qed

lemma argsort_spec_descending:
  assumes "argsort_spec (map uminus scores) order"
  shows "distinct order \<and> set order = {0..<length scores}
       \<and> sorted_wrt (\<lambda>i j. scores ! j \<le> scores ! i) order"
proof -
  from assms have d: "distinct order" and s: "set order = {0..<length scores}"
    and srt: "sorted (map (\<lambda>i. map uminus scores ! i) order)"
    by (simp_all add: argsort_spec_def)
  from srt have "sorted_wrt (\<lambda>i j. map uminus scores ! i \<le> map uminus scores ! j) order"
    by (simp add: sorted_map)
  then have "sorted_wrt (\<lambda>i j. scores ! j \<le> scores ! i) order"
    by (rule sorted_wrt_mono_rel [rotated]) (use s in auto)
  with d s show ?thesis by simp
qed

lemma stable_argsort_spec: "argsort_spec a (stable_argsort a)"
  by (simp add: argsort_spec_def stable_argsort_def)

section \<open>Properties of \<open>retrieve\<close>\<close>

subsection \<open>The shape of a call\<close>

lemma embed_one_query_candidates [simp]:
  "embed_one_query (self\<lparr>candidates := c\<rparr>) query = embed_one_query self query"
  by (simp add: embed_one_query_def)

lemma clamped_simps [simp]:
  "document_store (clamped self store) = document_store self"
  "top_k (clamped self store) = top_k self"
  "forward_batches (clamped self store) = forward_batches self"
  "candidates (clamped self store) = min (candidates self) (int (length (all_documents store)))"
  "embed_one_query (clamped self store) query = embed_one_query self query"
  by (simp_all add: clamped_def min_def)

lemma clamped_idem [simp]: "clamped (clamped self store) store = clamped self store"
  by (simp add: clamped_def)

text \<open>A call that got its embeddings: everything after line 228.\<close>

lemma retrieve_encoded:
  assumes "document_store self = Some store"
      and "embed_one_query self query = Inr (Some (qe, qb))"
  shows "retrieve argsort self query filters top_k_arg index_arg headers =
    (case faiss_indexes store (case index_arg of None \<Rightarrow> index store | Some i \<Rightarrow> i) of
       None \<Rightarrow> (Inl KeyError, clamped self store, [])
     | Some raw_index \<Rightarrow>
        (case search raw_index (np_packbits (np_where_gt0 qb)) (candidates (clamped self store)) of
           Inl e \<Rightarrow> Inl e
         | Inr ids_arr \<Rightarrow>
            (case score_candidates raw_index ids_arr qe of
               Inl e \<Rightarrow> Inl e
             | Inr scores_arr \<Rightarrow>
                 select_documents argsort (all_documents store) ids_arr scores_arr
                   (case top_k_arg of None \<Rightarrow> top_k self | Some k' \<Rightarrow> k')),
         clamped self store,
         [Index_search (np_packbits (np_where_gt0 qb)) (candidates (clamped self store))]))"
  using assms
  by (simp add: retrieve_def Let_def clamped_def split: sum.split option.split)

text \<open>A call that got none: it raises before line 230 and changes nothing.\<close>

lemma retrieve_not_encoded:
  assumes "document_store self = Some store"
      and "\<forall>a b. embed_one_query self query \<noteq> Inr (Some (a, b))"
  shows "retrieve argsort self query filters top_k_arg index_arg headers =
    ((case embed_one_query self query of Inl e \<Rightarrow> Inl e | Inr _ \<Rightarrow> Inl TypeError), self, [])"
  using assms
  by (auto simp add: retrieve_def Let_def split: sum.split option.split)

lemma retrieve_effects:
  assumes "document_store self = Some store"
      and "retrieve argsort self query filters top_k_arg index_arg headers = (res, self', evs)"
  shows "(self' = self \<or> self' = clamped self store)
       \<and> list_all (\<lambda>ev. \<exists>c. ev = Index_search c
                     (min (candidates self) (int (length (all_documents store))))) evs"
proof (cases "\<exists>qe qb. embed_one_query self query = Inr (Some (qe, qb))")
  case True
  then obtain qe qb where enc: "embed_one_query self query = Inr (Some (qe, qb))" by blast
  from assms(2) show ?thesis
    by (auto simp: retrieve_encoded [OF assms(1) enc] split: option.splits)
next
  case False
  then have ne: "\<forall>a b. embed_one_query self query \<noteq> Inr (Some (a, b))" by blast
  from assms(2)
    retrieve_not_encoded [OF assms(1) ne, of argsort filters top_k_arg index_arg headers]
  show ?thesis by simp
qed

lemma retrieve_calls_keep_candidates:
  assumes "candidates self = int n"
      and "list_all (\<lambda>call. n \<le> length (all_documents (fst call))) calls"
      and "retrieve_calls argsort self calls = (results, self')"
  shows "candidates self' = int n
       \<and> list_all (\<lambda>r. list_all (\<lambda>ev. \<exists>c. ev = Index_search c (int n)) (snd r)) results"
  using assms
proof (induction calls arbitrary: self results self')
  case Nil
  then show ?case by simp
next
  case (Cons call calls)
  obtain store query top_k_arg index_arg where
    call: "call = (store, query, top_k_arg, index_arg)"
    by (cases call) auto
  obtain res self1 evs where
    r: "retrieve argsort (self\<lparr>document_store := Some store\<rparr>) query () top_k_arg index_arg ()
          = (res, self1, evs)"
    by (cases "retrieve argsort (self\<lparr>document_store := Some store\<rparr>) query () top_k_arg
                 index_arg ()") auto
  obtain rest self2 where rest: "retrieve_calls argsort self1 calls = (rest, self2)"
    by (cases "retrieve_calls argsort self1 calls") auto
  from Cons.prems(2) call have n: "n \<le> length (all_documents store)"
    and calls: "list_all (\<lambda>call. n \<le> length (all_documents (fst call))) calls"
    by simp_all
  have m: "min (candidates self) (int (length (all_documents store))) = int n"
    using Cons.prems(1) n by simp
  from retrieve_effects [OF _ r, of store] m
  have c1: "candidates self1 = int n"
    and evs: "list_all (\<lambda>ev. \<exists>c. ev = Index_search c (int n)) evs"
    using Cons.prems(1) by auto
  from Cons.IH [OF c1 calls rest] Cons.prems(3) call r rest evs
  show ?case by auto
qed

lemma score_candidates_nonempty:
  assumes "score_candidates raw_index ids_arr q = Inr scores"
  shows "ids_arr \<noteq> []"
proof
  assume "ids_arr = []"
  with assms show False
    by (simp add: score_candidates_def np_vstack_def)
qed

lemma getitem_Nil [simp]: "getitem [] i = Inl IndexError"
  by (simp add: getitem_def)

text \<open>A store without documents: a call that returns at all returns no document, and
  only if the index handed out ids for a request of at most 0 candidates.\<close>

lemma retrieve_empty_store:
  assumes "document_store self = Some store" and "all_documents store = []"
      and "fst (retrieve argsort self query filters top_k_arg index_arg headers) = Inr documents"
  shows "documents = []
       \<and> (\<exists>(raw_index :: faiss_index) code k ids_arr.
             k \<le> 0 \<and> search raw_index code k = Inr ids_arr \<and> ids_arr \<noteq> [])"
proof (cases "\<exists>qe qb. embed_one_query self query = Inr (Some (qe, qb))")
  case True
  then obtain qe qb where enc: "embed_one_query self query = Inr (Some (qe, qb))" by blast
  let ?k = "case top_k_arg of None \<Rightarrow> top_k self | Some k' \<Rightarrow> k'"
  from assms(3) obtain raw_index ids_arr scores where
      search: "search raw_index (np_packbits (np_where_gt0 qb)) (candidates (clamped self store))
                 = Inr ids_arr"
    and scores: "score_candidates raw_index ids_arr qe = Inr scores"
    and docs: "select_documents argsort (all_documents store) ids_arr scores ?k = Inr documents"
    by (auto simp: retrieve_encoded [OF assms(1) enc] split: option.splits sum.splits)
  from select_documents_Inr [OF docs] assms(2) have "documents = []"
    by (cases documents) (auto simp: list_all2_Cons1)
  moreover have "candidates (clamped self store) \<le> 0"
    using assms(2) by simp
  with search score_candidates_nonempty [OF scores]
  have "\<exists>(raw_index :: faiss_index) code k ids_arr.
          k \<le> 0 \<and> search raw_index code k = Inr ids_arr \<and> ids_arr \<noteq> []"
    by (intro exI [of _ raw_index] exI [of _ "np_packbits (np_where_gt0 qb)"]
          exI [of _ "candidates (clamped self store)"] exI [of _ ids_arr]) simp
  ultimately show ?thesis by simp
next
  case False
  then have ne: "\<forall>a b. embed_one_query self query \<noteq> Inr (Some (a, b))" by blast
  from assms(3)
    retrieve_not_encoded [OF assms(1) ne, of argsort filters top_k_arg index_arg headers]
  show ?thesis by (auto split: sum.splits)
qed

subsection \<open>Concrete runs\<close>

lemma example_embed:
  "embed_one_query example_retriever q = Inr (Some (example_dense_query, example_binary_query))"
  by (simp add: embed_one_query_def example_retriever_def)

lemma example_code: "np_packbits (np_where_gt0 example_binary_query) = [0xFE]"
  by (simp add: example_binary_query_def np_where_gt0_def pack_byte_def)

lemma example_scores:
  "score_candidates example_index [1, 0, 2] example_dense_query = Inr [4, 12, -4]"
  by (simp add: score_candidates_def example_index_def np_unpackbits_def unpack_byte_def
      np_vstack_def np_reshape_def np_einsum_def example_dense_query_def
      upt_rec [of _ "numeral _"] upt_rec [of 0 "Suc _"])

lemma example_index_lookup:
  "faiss_indexes example_store (index example_store) = Some example_index"
  by (simp add: example_store_def)

lemma example_clamped: "clamped example_retriever example_store = example_retriever\<lparr>candidates := 3\<rparr>"
  by (simp add: clamped_def example_retriever_def example_store_def)

lemma example_search: "search example_index c 3 = Inr [1, 0, 2]"
  by (simp add: example_index_def)

lemma example_select:
  "select_documents stable_argsort (all_documents example_store) [1, 0, 2] [4, 12, -4] 2
     = Inr [''doc0'', ''doc1'']"
  by (simp add: select_documents_def stable_argsort_def slice_to_def getitem_def
      example_store_def)

lemma example_retrieve:
  "retrieve stable_argsort example_retriever ''q'' () (Some 2) None ()
     = (Inr [''doc0'', ''doc1''], example_retriever\<lparr>candidates := 3\<rparr>,
        [Index_search [0xFE] 3])"
proof -
  have "document_store example_retriever = Some example_store"
    by (simp add: example_retriever_def)
  from retrieve_encoded [OF this example_embed, of stable_argsort "''q''" "()" "Some 2" None "()"]
  show ?thesis
    by (simp add: example_index_lookup example_clamped example_search example_code
        example_scores example_select)
qed

lemma grown_retrieve:
  "retrieve stable_argsort (example_retriever\<lparr>candidates := 3, document_store := Some grown_store\<rparr>)
       ''q2'' () (Some 1) None ()
     = (Inr [''doc0''], example_retriever\<lparr>candidates := 3, document_store := Some grown_store\<rparr>,
        [Index_search [0xFE] 3])"
proof -
  let ?self = "example_retriever\<lparr>candidates := 3, document_store := Some grown_store\<rparr>"
  have store: "document_store ?self = Some grown_store"
    by simp
  have enc: "embed_one_query ?self ''q2'' = Inr (Some (example_dense_query, example_binary_query))"
    by (simp add: embed_one_query_def example_retriever_def)
  have clamp: "clamped ?self grown_store = ?self"
    by (simp add: clamped_def grown_store_def)
  have scores: "score_candidates (the (faiss_indexes grown_store ''document'')) [1, 0, 3]
                  example_dense_query = Inr [4, 12, 8]"
    by (simp add: score_candidates_def grown_store_def np_unpackbits_def unpack_byte_def
        np_vstack_def np_reshape_def np_einsum_def example_dense_query_def
        upt_rec [of _ "numeral _"] upt_rec [of 0 "Suc _"])
  have select: "select_documents stable_argsort (all_documents grown_store) [1, 0, 3] [4, 12, 8] 1
                  = Inr [''doc0'']"
    by (simp add: select_documents_def stable_argsort_def slice_to_def getitem_def
        grown_store_def)
  have lookup: "faiss_indexes grown_store (index grown_store)
                  = Some (the (faiss_indexes grown_store ''document''))"
    by (simp add: grown_store_def)
  have search: "search (the (faiss_indexes grown_store ''document'')) [0xFE] 3 = Inr [1, 0, 3]"
    by (simp add: grown_store_def)
  from retrieve_encoded [OF store enc, of stable_argsort "()" "Some 1" None "()"]
  show ?thesis
    by (simp add: lookup clamp example_code search scores select)
qed

subsection \<open>The claims\<close>

text \<open>
  Claim C1 says that \<open>retrieve\<close> on a store with 0 entries returns an empty sequence
  and raises nothing. The code does otherwise: the guard of line 222 only catches a
  missing store; with an empty one line 231 sets \<^verbatim>\<open>self.candidates\<close> to 0, the search
  for 0 candidates gives no ids, and \<^verbatim>\<open>np.vstack\<close> of the empty list raises
  \<^verbatim>\<open>ValueError\<close>. The run below is \<^verbatim>\<open>retrieve(q, top_k=5)\<close> on such a store; by
  \<open>retrieve_empty_store\<close> no index that answers a request for 0 candidates with no ids
  (or with an exception) lets the call return.
\<close>

theorem retrieve_on_empty_store:
  "retrieve stable_argsort (example_retriever\<lparr>document_store := Some empty_store\<rparr>)
       ''q'' () (Some 5) None ()
     = (Inl ValueError,
        example_retriever\<lparr>document_store := Some empty_store, candidates := 0\<rparr>,
        [Index_search [0xFE] 0])"
proof -
  let ?self = "example_retriever\<lparr>document_store := Some empty_store\<rparr>"
  have store: "document_store ?self = Some empty_store"
    by simp
  have enc: "embed_one_query ?self ''q'' = Inr (Some (example_dense_query, example_binary_query))"
    by (simp add: embed_one_query_def example_retriever_def)
  have clamp: "clamped ?self empty_store = ?self\<lparr>candidates := 0\<rparr>"
    by (simp add: clamped_def empty_store_def example_retriever_def)
  have lookup: "faiss_indexes empty_store (index empty_store)
                  = Some (the (faiss_indexes empty_store ''document''))"
    by (simp add: empty_store_def)
  have search: "search (the (faiss_indexes empty_store ''document'')) [0xFE] 0 = Inr []"
    by (simp add: empty_store_def)
  have scores: "score_candidates raw_index [] example_dense_query = Inl ValueError"
    for raw_index
    by (simp add: score_candidates_def np_vstack_def)
  from retrieve_encoded [OF store enc, of stable_argsort "()" "Some 5" None "()"]
  show ?thesis
    by (simp add: lookup clamp example_code search scores)
qed

text \<open>
  Claim C2, as amended. In stage 5 of \<open>retrieve\<close> the positions of the shortlist are
  put in the order of \<^verbatim>\<open>np.argsort\<close> on the negated scores: every position once, by
  descending dot-product score. The sort is NumPy's default one, which is not stable,
  so nothing is said about the order of positions with equal scores. The slice
  \<^verbatim>\<open>[:top_k]\<close> of this order is taken (its first \<open>top_k\<close> entries when \<open>top_k\<close> is not
  negative), and the documents found under the ids at these positions are returned in
  exactly that order.
\<close>

theorem retrieve_returns_top_k_by_score:
  assumes "document_store self = Some store"
      and "forward_batches self query
             = Inr ((binary_query, binary_passage, dense_query) # batches)"
      and "faiss_indexes store (case index_arg of None \<Rightarrow> index store | Some i \<Rightarrow> i)
             = Some raw_index"
      and "search raw_index (np_packbits (np_where_gt0 binary_query))
             (min (candidates self) (int (length (all_documents store)))) = Inr ids_arr"
      and "\<forall>a. argsort_spec a (argsort a)"
      and "fst (retrieve argsort self query filters top_k_arg index_arg headers)
             = Inr documents"
  shows "\<exists>scores order.
           score_candidates raw_index ids_arr dense_query = Inr scores
         \<and> distinct order \<and> set order = {0..<length ids_arr}
         \<and> sorted_wrt (\<lambda>i j. scores ! j \<le> scores ! i) order
         \<and> list_all2 (\<lambda>d i. getitem (all_documents store) (ids_arr ! i) = Inr d) documents
              (slice_to (case top_k_arg of None \<Rightarrow> top_k self | Some k' \<Rightarrow> k') order)
         \<and> (0 \<le> (case top_k_arg of None \<Rightarrow> top_k self | Some k' \<Rightarrow> k') \<longrightarrow>
              slice_to (case top_k_arg of None \<Rightarrow> top_k self | Some k' \<Rightarrow> k') order
                = take (nat (case top_k_arg of None \<Rightarrow> top_k self | Some k' \<Rightarrow> k')) order)"
proof -
  let ?k = "case top_k_arg of None \<Rightarrow> top_k self | Some k' \<Rightarrow> k'"
  from assms(2) have enc: "embed_one_query self query = Inr (Some (dense_query, binary_query))"
    by (simp add: embed_one_query_def)
  from assms(3,4,6) obtain scores where
      scores: "score_candidates raw_index ids_arr dense_query = Inr scores"
    and docs: "select_documents argsort (all_documents store) ids_arr scores ?k = Inr documents"
    by (auto simp: retrieve_encoded [OF assms(1) enc] split: sum.splits)
  let ?order = "argsort (map uminus scores)"
  from score_candidates_Inr [OF scores] have len: "length scores = length ids_arr"
    by simp
  from assms(5) have "argsort_spec (map uminus scores) ?order"
    by simp
  from argsort_spec_descending [OF this] len
  have order: "distinct ?order" "set ?order = {0..<length ids_arr}"
    "sorted_wrt (\<lambda>i j. scores ! j \<le> scores ! i) ?order"
    by simp_all
  from select_documents_Inr [OF docs]
  have "list_all2 (\<lambda>d i. getitem (all_documents store) (ids_arr ! i) = Inr d) documents
          (slice_to ?k ?order)"
    by (rule list_all2_mono) simp
  moreover have "0 \<le> ?k \<longrightarrow> slice_to ?k ?order = take (nat ?k) ?order"
    by (simp add: slice_to_def)
  ultimately show ?thesis
    using scores order by blast
qed

theorem retrieve_returns_top_k_by_score_witness:
  "document_store example_retriever = Some example_store
   \<and> forward_batches example_retriever ''q''
       = Inr ((example_binary_query, None, example_dense_query) # [])
   \<and> faiss_indexes example_store (case None of None \<Rightarrow> index example_store | Some i \<Rightarrow> i)
       = Some example_index
   \<and> search example_index (np_packbits (np_where_gt0 example_binary_query))
        (min (candidates example_retriever) (int (length (all_documents example_store))))
       = Inr [1, 0, 2]
   \<and> (\<forall>a. argsort_spec a (stable_argsort a))
   \<and> fst (retrieve stable_argsort example_retriever ''q'' () (Some 2) None ())
       = Inr [''doc0'', ''doc1'']
   \<and> (\<exists>scores order.
         score_candidates example_index [1, 0, 2] example_dense_query = Inr scores
       \<and> distinct order \<and> set order = {0..<length [1 :: int, 0, 2]}
       \<and> sorted_wrt (\<lambda>i j. scores ! j \<le> scores ! i) order
       \<and> list_all2 (\<lambda>d i. getitem (all_documents example_store) ([1, 0, 2] ! i) = Inr d)
            [''doc0'', ''doc1'']
            (slice_to (case Some 2 of None \<Rightarrow> top_k example_retriever | Some k' \<Rightarrow> k') order)
       \<and> slice_to (case Some 2 of None \<Rightarrow> top_k example_retriever | Some k' \<Rightarrow> k') order
            = take (nat (case Some 2 of None \<Rightarrow> top_k example_retriever | Some k' \<Rightarrow> k')) order)"
proof -
  have 1: "document_store example_retriever = Some example_store"
    by (simp add: example_retriever_def)
  have 2: "forward_batches example_retriever ''q''
       = Inr ((example_binary_query, None, example_dense_query) # [])"
    by (simp add: example_retriever_def)
  have 3: "faiss_indexes example_store (case None of None \<Rightarrow> index example_store | Some i \<Rightarrow> i)
             = Some example_index"
    by (simp add: example_store_def)
  have 4: "search example_index (np_packbits (np_where_gt0 example_binary_query))
        (min (candidates example_retriever) (int (length (all_documents example_store))))
       = Inr [1, 0, 2]"
    by (simp add: example_index_def example_retriever_def example_store_def)
  have 5: "\<forall>a. argsort_spec a (stable_argsort a)"
    by (simp add: stable_argsort_spec)
  have 6: "fst (retrieve stable_argsort example_retriever ''q'' () (Some 2) None ())
       = Inr [''doc0'', ''doc1'']"
    by (simp add: example_retrieve)
  have 7: "(0 :: int) \<le> (case Some 2 of None \<Rightarrow> top_k example_retriever | Some k' \<Rightarrow> k')"
    by simp
  from retrieve_returns_top_k_by_score [OF 1 2 3 4 5 6] 1 2 3 4 5 6 7
  show ?thesis by blast
qed

text \<open>Claim C2 as it stands asks for a stable sort, ties in ascending shortlist
  order. With eighteen candidates of equal score (all 4) and \<open>top_k = 3\<close> that would be
  the documents at the shortlist positions 0, 1, 2. NumPy's default sort returns the
  positions in the order 0, 15, 14, ..., and \<open>retrieve\<close> returns those documents.\<close>

theorem retrieve_reorders_equal_scores:
  "score_candidates (the (faiss_indexes tied_store ''document'')) (map int [0..<18])
       example_dense_query = Inr (replicate 18 4)
   \<and> np_argsort (replicate 18 (-4))
       = [0, 15, 14, 13, 12, 11, 10, 9, 8, 7, 6, 5, 4, 3, 2, 1, 16, 17]
   \<and> argsort_spec (replicate 18 (-4)) (np_argsort (replicate 18 (-4)))
   \<and> fst (retrieve np_argsort tied_retriever ''q'' () (Some 3) None ()) = Inr [0, 15, 14]
   \<and> fst (retrieve stable_argsort tied_retriever ''q'' () (Some 3) None ()) = Inr [0, 1, 2]
   \<and> fst (retrieve np_argsort tied_retriever ''q'' () (Some 3) None ())
       \<noteq> fst (retrieve stable_argsort tied_retriever ''q'' () (Some 3) None ())"
proof -
  have "score_candidates (the (faiss_indexes tied_store ''document'')) (map int [0..<18])
       example_dense_query = Inr (replicate 18 4)"
    by code_simp
  moreover have "np_argsort (replicate 18 (-4))
       = [0, 15, 14, 13, 12, 11, 10, 9, 8, 7, 6, 5, 4, 3, 2, 1, 16, 17]"
    by code_simp
  moreover have "argsort_spec (replicate 18 (-4)) (np_argsort (replicate 18 (-4)))"
    by code_simp
  moreover have np: "fst (retrieve np_argsort tied_retriever ''q'' () (Some 3) None ())
       = Inr [0, 15, 14]"
    by code_simp
  moreover have stable: "fst (retrieve stable_argsort tied_retriever ''q'' () (Some 3) None ())
       = Inr [0, 1, 2]"
    by code_simp
  moreover have "fst (retrieve np_argsort tied_retriever ''q'' () (Some 3) None ())
       \<noteq> fst (retrieve stable_argsort tied_retriever ''q'' () (Some 3) None ())"
    unfolding np stable by simp
  ultimately show ?thesis by blast
qed

text \<open>
  Claim C3, as amended. The packed representation has \<open>\<lceil>D/8\<rceil>\<close> bytes, and unpacking a
  packed code to 1/-1 and packing it again gives the original bytes, for every code.
  Packing a 1/-1 code of \<open>D\<close> dimensions and unpacking it gives the code followed by
  \<open>8\<lceil>D/8\<rceil> - D\<close> entries -1 (\<^verbatim>\<open>np.unpackbits\<close> is called without \<^verbatim>\<open>count\<close>): it is
  the original sequence exactly when \<open>D\<close> is a multiple of 8, as for \<open>D = 8\<close> and
  \<open>D = 768\<close>, and not for \<open>D = 1\<close> or \<open>D = 9\<close>.
\<close>

theorem pack_unpack_round_trip:
  "pack (unpack packed) = packed
   \<and> length (pack code) = (length code + 7) div 8
   \<and> (list_all (\<lambda>v. v = 1 \<or> v = -1) code \<longrightarrow>
        unpack (pack code)
          = code @ replicate (8 * ((length code + 7) div 8) - length code) (-1)
        \<and> (unpack (pack code) = code \<longleftrightarrow> 8 dvd length code))"
proof -
  have "8 * ((length code + 7) div 8) - length code = 0 \<longleftrightarrow> 8 dvd length code"
    by presburger
  then show ?thesis
    by (simp add: pack_unpack length_pack unpack_pack)
qed

theorem pack_unpack_round_trip_witness:
  "pack (unpack [0xF0, 0x0F]) = [0xF0, 0x0F]
   \<and> length (pack example_binary_query) = (length example_binary_query + 7) div 8
   \<and> list_all (\<lambda>v. v = 1 \<or> v = -1) example_binary_query
   \<and> unpack (pack example_binary_query)
        = example_binary_query
          @ replicate (8 * ((length example_binary_query + 7) div 8)
                       - length example_binary_query) (-1)
   \<and> 8 dvd length example_binary_query
   \<and> unpack (pack example_binary_query) = example_binary_query"
proof -
  have "length example_binary_query = 8"
    by (simp add: example_binary_query_def)
  then have "8 dvd length example_binary_query"
    by simp
  moreover have "list_all (\<lambda>v. v = 1 \<or> v = -1) example_binary_query"
    by (simp add: example_binary_query_def)
  ultimately show ?thesis
    using pack_unpack_round_trip [of "[0xF0, 0x0F]" example_binary_query]
    by blast
qed

text \<open>Claim C3 as it stands asks for the second round trip also at \<open>D = 1\<close> and
  \<open>D = 9\<close>. There the unpacked code comes back with 8 and 16 entries.\<close>

theorem unpack_pack_one_dimension:
  "list_all (\<lambda>v. v = 1 \<or> v = -1) [1 :: real]
   \<and> length [1 :: real] = 1
   \<and> unpack (pack [1]) = [1, -1, -1, -1, -1, -1, -1, -1]
   \<and> unpack (pack [1]) \<noteq> [1]
   \<and> length (unpack (pack [1, 1, 1, 1, 1, 1, 1, 1, 1])) = 16
   \<and> unpack (pack [1, 1, 1, 1, 1, 1, 1, 1, 1]) \<noteq> [1, 1, 1, 1, 1, 1, 1, 1, 1]"
proof -
  have "unpack (pack [1]) = [1] @ replicate 7 (-1)"
    using unpack_pack [of "[1]"] by simp
  then have one: "unpack (pack [1]) = [1, -1, -1, -1, -1, -1, -1, -1]"
    by (simp add: eval_nat_numeral)
  have nine: "length (unpack (pack [1, 1, 1, 1, 1, 1, 1, 1, 1])) = 16"
    by (simp add: length_unpack length_pack)
  have "unpack (pack [1, 1, 1, 1, 1, 1, 1, 1, 1]) \<noteq> [1, 1, 1, 1, 1, 1, 1, 1, 1]"
  proof
    assume "unpack (pack [1, 1, 1, 1, 1, 1, 1, 1, 1]) = [1, 1, 1, 1, 1, 1, 1, 1, 1]"
    then have "length (unpack (pack [1, 1, 1, 1, 1, 1, 1, 1, 1]))
        = length [1 :: real, 1, 1, 1, 1, 1, 1, 1, 1]"
      by (rule arg_cong)
    with nine show False by simp
  qed
  with one nine show ?thesis by simp
qed

text \<open>
  Claim C4. The binary code used for the search has bit \<open>i\<close> set exactly when
  dimension \<open>i\<close> of the query vector that line 233 thresholds (the encoder's
  \<^verbatim>\<open>binary_query\<close> output) is strictly greater than 0; a dimension that is exactly 0
  gives bit 0. Bit \<open>i\<close> is stored in byte \<open>i div 8\<close>, most significant bit first, and the
  code has \<open>\<lceil>D/8\<rceil>\<close> bytes. The code is the one sent to the index.
\<close>

theorem retrieve_query_code_bits:
  assumes "document_store self = Some store"
      and "embed_one_query self query = Inr (Some (qe, qb))"
      and "faiss_indexes store (case index_arg of None \<Rightarrow> index store | Some i \<Rightarrow> i)
             = Some raw_index"
  shows "\<exists>code k.
           snd (snd (retrieve argsort self query filters top_k_arg index_arg headers))
             = [Index_search code k]
         \<and> length code = (length qb + 7) div 8
         \<and> (\<forall>i < length qb. bit (code ! (i div 8)) (7 - i mod 8) \<longleftrightarrow> qb ! i > 0)"
proof -
  have "i < 8 * length (pack qb)" if "i < length qb" for i
    using that by (simp add: length_pack)
  then have "\<forall>i < length qb. bit (pack qb ! (i div 8)) (7 - i mod 8) \<longleftrightarrow> qb ! i > 0"
    by (simp add: bit_pack)
  moreover have "snd (snd (retrieve argsort self query filters top_k_arg index_arg headers))
     = [Index_search (pack qb) (candidates (clamped self store))]"
    using assms by (simp add: retrieve_encoded pack_def)
  ultimately show ?thesis
    using length_pack [of qb] by blast
qed

theorem retrieve_query_code_bits_witness:
  "document_store example_retriever = Some example_store
   \<and> embed_one_query example_retriever ''q''
       = Inr (Some (example_dense_query, example_binary_query))
   \<and> faiss_indexes example_store (case None of None \<Rightarrow> index example_store | Some i \<Rightarrow> i)
       = Some example_index
   \<and> (\<exists>code k.
         snd (snd (retrieve stable_argsort example_retriever ''q'' () (Some 2) None ()))
           = [Index_search code k]
       \<and> length code = (length example_binary_query + 7) div 8
       \<and> (\<forall>i < length example_binary_query.
             bit (code ! (i div 8)) (7 - i mod 8) \<longleftrightarrow> example_binary_query ! i > 0))"
proof -
  have 1: "document_store example_retriever = Some example_store"
    by (simp add: example_retriever_def)
  have 2: "faiss_indexes example_store (case None of None \<Rightarrow> index example_store | Some i \<Rightarrow> i)
             = Some example_index"
    by (simp add: example_store_def)
  from retrieve_query_code_bits [OF 1 example_embed [of "''q''"] 2,
      where argsort = stable_argsort and filters = "()" and top_k_arg = "Some 2"
        and headers = "()"]
    1 2 example_embed
  show ?thesis by simp
qed

text \<open>
  Claim C5. In stage 4 of \<open>retrieve\<close> the score of every shortlisted candidate is the
  dot product of the candidate's stored code, reconstructed and unpacked to a 1/-1
  vector (a set bit is +1.0, a clear bit is -1.0, not 0/1), with the dense query
  embedding exactly as the encoder returned it. These scores are the ones by which the
  returned documents are selected.
\<close>

theorem retrieve_scores_are_dot_products:
  assumes "document_store self = Some store"
      and "forward_batches self query
             = Inr ((binary_query, binary_passage, dense_query) # batches)"
      and "faiss_indexes store (case index_arg of None \<Rightarrow> index store | Some i \<Rightarrow> i)
             = Some raw_index"
      and "search raw_index (np_packbits (np_where_gt0 binary_query))
             (min (candidates self) (int (length (all_documents store)))) = Inr ids_arr"
      and "fst (retrieve argsort self query filters top_k_arg index_arg headers)
             = Inr documents"
  shows "\<exists>scores.
           length scores = length ids_arr
         \<and> (\<forall>j < length ids_arr. \<exists>code.
               reconstruct raw_index (ids_arr ! j) = Inr code
             \<and> scores ! j = dot_product (unpacked_pm1 code) dense_query)
         \<and> select_documents argsort (all_documents store) ids_arr scores
              (case top_k_arg of None \<Rightarrow> top_k self | Some k' \<Rightarrow> k') = Inr documents"
proof -
  from assms(2) have enc: "embed_one_query self query = Inr (Some (dense_query, binary_query))"
    by (simp add: embed_one_query_def)
  from assms(3-5) obtain scores where
      scores: "score_candidates raw_index ids_arr dense_query = Inr scores"
    and docs: "select_documents argsort (all_documents store) ids_arr scores
              (case top_k_arg of None \<Rightarrow> top_k self | Some k' \<Rightarrow> k') = Inr documents"
    by (auto simp: retrieve_encoded [OF assms(1) enc] split: sum.splits)
  from score_candidates_Inr [OF scores] docs show ?thesis
    by blast
qed

theorem retrieve_scores_are_dot_products_witness:
  "document_store example_retriever = Some example_store
   \<and> forward_batches example_retriever ''q''
       = Inr ((example_binary_query, None, example_dense_query) # [])
   \<and> faiss_indexes example_store (case None of None \<Rightarrow> index example_store | Some i \<Rightarrow> i)
       = Some example_index
   \<and> search example_index (np_packbits (np_where_gt0 example_binary_query))
        (min (candidates example_retriever) (int (length (all_documents example_store))))
       = Inr [1, 0, 2]
   \<and> fst (retrieve stable_argsort example_retriever ''q'' () (Some 2) None ())
       = Inr [''doc0'', ''doc1'']
   \<and> (\<exists>scores.
         length scores = length [1 :: int, 0, 2]
       \<and> (\<forall>j < length [1 :: int, 0, 2]. \<exists>code.
             reconstruct example_index ([1, 0, 2] ! j) = Inr code
           \<and> scores ! j = dot_product (unpacked_pm1 code) example_dense_query)
       \<and> select_documents stable_argsort (all_documents example_store) [1, 0, 2] scores
            (case Some 2 of None \<Rightarrow> top_k example_retriever | Some k' \<Rightarrow> k')
           = Inr [''doc0'', ''doc1''])"
proof -
  have 1: "document_store example_retriever = Some example_store"
    by (simp add: example_retriever_def)
  have 2: "forward_batches example_retriever ''q''
       = Inr ((example_binary_query, None, example_dense_query) # [])"
    by (simp add: example_retriever_def)
  have 3: "faiss_indexes example_store (case None of None \<Rightarrow> index example_store | Some i \<Rightarrow> i)
             = Some example_index"
    by (simp add: example_store_def)
  have 4: "search example_index (np_packbits (np_where_gt0 example_binary_query))
        (min (candidates example_retriever) (int (length (all_documents example_store))))
       = Inr [1, 0, 2]"
    by (simp add: example_index_def example_retriever_def example_store_def)
  have 5: "fst (retrieve stable_argsort example_retriever ''q'' () (Some 2) None ())
       = Inr [''doc0'', ''doc1'']"
    by (simp add: example_retrieve)
  from retrieve_scores_are_dot_products [OF 1 2 3 4 5] 1 2 3 4 5
  show ?thesis by blast
qed



text \<open>
  Claim C7. Two consecutive calls of \<open>retrieve\<close> with the same query and the same top_k
  on an unmodified index return the same ordered result: a second call, made on the
  retriever as the first call left it, returns (or raises) what the first did, sends the
  same request to the index and leaves the retriever unchanged.
\<close>

theorem retrieve_twice:
  assumes "retrieve argsort self query filters top_k_arg index_arg headers = (res, self', evs)"
  shows "retrieve argsort self' query filters top_k_arg index_arg headers = (res, self', evs)"
proof (cases "document_store self")
  case None
  with assms show ?thesis by (auto simp: retrieve_def)
next
  case (Some store)
  show ?thesis
  proof (cases "\<exists>qe qb. embed_one_query self query = Inr (Some (qe, qb))")
    case True
    then obtain qe qb where enc: "embed_one_query self query = Inr (Some (qe, qb))" by blast
    from assms have self': "self' = clamped self store"
      by (auto simp: retrieve_encoded [OF Some enc] split: option.splits)
    have "retrieve argsort (clamped self store) query filters top_k_arg index_arg headers
        = retrieve argsort self query filters top_k_arg index_arg headers"
      using Some enc
      by (subst (1 2) retrieve_encoded [where store = store and qe = qe and qb = qb])
         (simp_all cong: option.case_cong sum.case_cong)
    with assms self' show ?thesis by simp
  next
    case False
    then have ne: "\<forall>a b. embed_one_query self query \<noteq> Inr (Some (a, b))" by blast
    from assms
      retrieve_not_encoded [OF Some ne, of argsort filters top_k_arg index_arg headers]
    have "self' = self" by simp
    with assms show ?thesis by simp
  qed
qed

theorem retrieve_twice_witness:
  "retrieve stable_argsort example_retriever ''q'' () (Some 2) None ()
     = (Inr [''doc0'', ''doc1''], example_retriever\<lparr>candidates := 3\<rparr>, [Index_search [0xFE] 3])
   \<and> retrieve stable_argsort (example_retriever\<lparr>candidates := 3\<rparr>) ''q'' () (Some 2) None ()
     = (Inr [''doc0'', ''doc1''], example_retriever\<lparr>candidates := 3\<rparr>, [Index_search [0xFE] 3])"
  using retrieve_twice [OF example_retrieve] example_retrieve by simp

text \<open>
  Claim C8. \<open>retrieve\<close> changes the retriever: when the stored candidate count exceeds
  the number of documents of the store, a call (one that has a store and got its
  embeddings) overwrites \<^verbatim>\<open>self.candidates\<close> with the number of documents. The reduced
  value stays: in every later series of calls, against stores that have grown or kept
  their size, the field keeps this value and every request sent to the index asks for
  exactly that many candidates.
\<close>

theorem retrieve_overwrites_candidates:
  assumes "document_store self = Some store"
      and "embed_one_query self query = Inr (Some (qe, qb))"
      and "candidates self > int (length (all_documents store))"
      and "retrieve argsort self query filters top_k_arg index_arg headers = (res, self', evs)"
  shows "candidates self' = int (length (all_documents store))
       \<and> (\<forall>calls results self''.
             list_all (\<lambda>call. length (all_documents store) \<le> length (all_documents (fst call)))
               calls
             \<and> retrieve_calls argsort self' calls = (results, self'')
             \<longrightarrow> candidates self'' = int (length (all_documents store))
               \<and> list_all (\<lambda>r. list_all (\<lambda>ev. \<exists>c. ev = Index_search c
                                     (int (length (all_documents store)))) (snd r)) results)"
proof -
  from assms(3,4) have c: "candidates self' = int (length (all_documents store))"
    by (auto simp: retrieve_encoded [OF assms(1,2)] split: option.splits)
  with retrieve_calls_keep_candidates [of self' "length (all_documents store)"]
  show ?thesis by blast
qed

theorem retrieve_overwrites_candidates_witness:
  "document_store example_retriever = Some example_store
   \<and> embed_one_query example_retriever ''q''
       = Inr (Some (example_dense_query, example_binary_query))
   \<and> candidates example_retriever = 1000
   \<and> candidates example_retriever > int (length (all_documents example_store))
   \<and> retrieve stable_argsort example_retriever ''q'' () (Some 2) None ()
       = (Inr [''doc0'', ''doc1''], example_retriever\<lparr>candidates := 3\<rparr>,
          [Index_search [0xFE] 3])
   \<and> candidates (example_retriever\<lparr>candidates := 3\<rparr>) = int (length (all_documents example_store))
   \<and> list_all (\<lambda>call. length (all_documents example_store) \<le> length (all_documents (fst call)))
        [(grown_store, ''q2'', Some 1, None)]
   \<and> length (all_documents grown_store) = 4
   \<and> retrieve_calls stable_argsort (example_retriever\<lparr>candidates := 3\<rparr>)
        [(grown_store, ''q2'', Some 1, None)]
       = ([(Inr [''doc0''], [Index_search [0xFE] 3])],
          example_retriever\<lparr>candidates := 3, document_store := Some grown_store\<rparr>)
   \<and> candidates (example_retriever\<lparr>candidates := 3, document_store := Some grown_store\<rparr>)
       = int (length (all_documents example_store))
   \<and> list_all (\<lambda>r. list_all (\<lambda>ev. \<exists>c. ev = Index_search c
                  (int (length (all_documents example_store)))) (snd r))
        [(Inr [''doc0''], [Index_search [0xFE] 3])]"
proof -
  have 1: "document_store example_retriever = Some example_store"
    by (simp add: example_retriever_def)
  have 3: "candidates example_retriever > int (length (all_documents example_store))"
    by (simp add: example_retriever_def example_store_def)
  have calls: "retrieve_calls stable_argsort (example_retriever\<lparr>candidates := 3\<rparr>)
        [(grown_store, ''q2'', Some 1, None)]
       = ([(Inr [''doc0''], [Index_search [0xFE] 3])],
          example_retriever\<lparr>candidates := 3, document_store := Some grown_store\<rparr>)"
    by (simp add: grown_retrieve)
  have sizes: "length (all_documents example_store) = 3" "length (all_documents grown_store) = 4"
    "candidates example_retriever = 1000"
    by (simp_all add: example_store_def grown_store_def example_retriever_def)
  from retrieve_overwrites_candidates [OF 1 example_embed 3 example_retrieve]
    1 3 calls sizes example_embed example_retrieve
  show ?thesis by simp
qed

text \<open>
  Claim C9. When the retriever was constructed without a document store
  (\<^verbatim>\<open>document_store=None\<close>), \<open>retrieve\<close> logs an error and returns the empty list, for
  every query, filters, top_k and index argument; it raises nothing and leaves the
  retriever as it was.
\<close>

theorem retrieve_without_document_store:
  "document_store self = None \<Longrightarrow>
     retrieve argsort self query filters top_k_arg index_arg headers
       = (Inr [], self, [Log_error no_document_store_message])"
  by (simp add: retrieve_def)

theorem retrieve_without_document_store_witness:
  "document_store (example_retriever\<lparr>document_store := None\<rparr>) = None
   \<and> retrieve stable_argsort (example_retriever\<lparr>document_store := None\<rparr>)
        ''who?'' () (Some 5) (Some ''document'') ()
       = (Inr [], example_retriever\<lparr>document_store := None\<rparr>,
          [Log_error no_document_store_message])"
  using retrieve_without_document_store
    [of "example_retriever\<lparr>document_store := None\<rparr>"
        stable_argsort "''who?''" "()" "Some 5" "Some ''document''" "()"]
  by simp

section \<open>Properties of \<open>HashLayer\<close>\<close>

text \<open>
  Claim C10. \<^verbatim>\<open>HashLayer.__init_subclass__\<close> writes every new subclass into
  \<^verbatim>\<open>cls.subclasses\<close> under the class name, but \<^verbatim>\<open>HashLayer\<close> itself defines no
  \<^verbatim>\<open>subclasses\<close> mapping. So the definition of a direct subclass (a plain class
  statement, without class keyword arguments) that does not supply \<^verbatim>\<open>subclasses\<close> itself
  fails with an attribute error at class-definition time, \<^verbatim>\<open>nn.Module\<close> and \<^verbatim>\<open>object\<close>
  supplying none either; a subclass that brings its own mapping is registered in it.
\<close>

theorem init_subclass_without_registry:
  "HashLayer_namespace ''subclasses'' = None
   \<and> (cls_namespace cls ''subclasses'' = None \<and> base ''subclasses'' = None \<and> kwargs = []
        \<longrightarrow> init_subclass base cls kwargs = Inl AttributeError)
   \<and> (cls_namespace cls ''subclasses'' = Some (Dict subclasses) \<and> kwargs = []
        \<longrightarrow> init_subclass base cls kwargs = Inr (subclasses(cls_name cls \<mapsto> cls_name cls)))"
  by (simp add: init_subclass_def getattr_cls_def HashLayer_namespace_def)

theorem init_subclass_without_registry_witness:
  "HashLayer_namespace ''subclasses'' = None
   \<and> cls_namespace \<lparr>cls_name = ''TanhHash'', cls_namespace = [''forward'' \<mapsto> Function]\<rparr>
        ''subclasses'' = None
   \<and> [''training'' \<mapsto> Other] ''subclasses'' = None
   \<and> init_subclass [''training'' \<mapsto> Other]
        \<lparr>cls_name = ''TanhHash'', cls_namespace = [''forward'' \<mapsto> Function]\<rparr>
        ([] :: (string \<times> unit) list)
       = Inl AttributeError
   \<and> cls_namespace \<lparr>cls_name = ''SignHash'', cls_namespace = [''subclasses'' \<mapsto> Dict Map.empty]\<rparr>
        ''subclasses'' = Some (Dict Map.empty)
   \<and> init_subclass [''training'' \<mapsto> Other]
        \<lparr>cls_name = ''SignHash'', cls_namespace = [''subclasses'' \<mapsto> Dict Map.empty]\<rparr>
        ([] :: (string \<times> unit) list)
       = Inr [''SignHash'' \<mapsto> ''SignHash'']"
  using init_subclass_without_registry
      [of "\<lparr>cls_name = ''TanhHash'', cls_namespace = [''forward'' \<mapsto> Function]\<rparr>"
          "[''training'' \<mapsto> Other]" "[] :: (string \<times> unit) list"]
    init_subclass_without_registry
      [of "\<lparr>cls_name = ''SignHash'', cls_namespace = [''subclasses'' \<mapsto> Dict Map.empty]\<rparr>"
          "[''training'' \<mapsto> Other]" "[] :: (string \<times> unit) list" Map.empty]
  by simp

end
